theory Spec2Isabelle
  imports Main "HOL-Library.Sublist"
begin

section \<open>Strings of the transcript matcher\<close>

text \<open>
  Transcripts and the wake word are JavaScript strings. They are modelled as \<open>string\<close>,
  a character standing for a code unit below 256 (Latin-1). \<open>toLowerCase\<close> maps the
  upper-case letters of that range (65..90 and 192..222 except 215) to the code point 32
  higher; bit 5 is clear in all of them, so adding 32 is setting bit 5. \<open>trim\<close> removes
  the white space of that range (9..13, 32, 160) from both ends. \<open>includes\<close> is the
  substring test of \<open>String.prototype.includes\<close>, searching from position 0.
\<close>

definition toLowerChar :: "char \<Rightarrow> char" where
  "toLowerChar c =
     (let n = (of_char c :: nat) in
      if (65 \<le> n \<and> n \<le> 90) \<or> (192 \<le> n \<and> n \<le> 222 \<and> n \<noteq> 215)
      then (case c of Char b0 b1 b2 b3 b4 b5 b6 b7 \<Rightarrow> Char b0 b1 b2 b3 b4 True b6 b7)
      else c)"

definition toLowerCase :: "string \<Rightarrow> string" where
  "toLowerCase s = map toLowerChar s"

definition isWhiteSpace :: "char \<Rightarrow> bool" where
  "isWhiteSpace c = ((of_char c :: nat) \<in> {9, 10, 11, 12, 13, 32, 160})"

definition trim :: "string \<Rightarrow> string" where
  "trim s = rev (dropWhile isWhiteSpace (rev (dropWhile isWhiteSpace s)))"

fun includes_str :: "string \<Rightarrow> string \<Rightarrow> bool" where
  "includes_str [] w = (w = [])"
| "includes_str (c # cs) w = (prefix w (c # cs) \<or> includes_str cs w)"

text \<open>
  A recognition event carries a list of results; each result has at least one
  alternative, and the handler reads the transcript of the first one (\<open>result[0]\<close>).
  A result is the pair of its first alternative and the remaining ones.
\<close>

type_synonym speech_result = "string \<times> string list"
type_synonym speech_event = "speech_result list"

definition transcript_of :: "speech_event \<Rightarrow> string" where
  "transcript_of ev = trim (toLowerCase (concat (map fst ev)))"

section \<open>State of the page: both hooks, the timers and the trace\<close>

text \<open>
  What the hooks do to their collaborators is recorded, in order, in a trace.
\<close>

datatype effect =
    RecognitionStart
  | RecognitionStop
  | WakeTone
  | CountdownStarted nat
  | WakeCallback
  | TimeoutCallback
  | TokenRequested
  | SessionCreated nat
  | EstablishInvoked nat
  | ListenersRegistered nat
  | SessionClosed nat

text \<open>
  A pending \<open>setTimeout\<close> holds its remaining delay and its callback. The callbacks of
  this program are the silence timeout of \<open>resetSilenceTimer\<close> (which closes over the
  \<open>isListening\<close> of the render that created \<open>resetSilenceTimer\<close>), the debounced restart of
  \<open>handleSpeechEnd\<close>, and the page's delayed \<open>connect()\<close>.
\<close>

datatype timer_callback =
    SilenceTimeout bool
  | RestartRecognition
  | DelayedConnect

text \<open>
  The callbacks of the hooks are closures made by \<open>useCallback\<close>: each sees the
  values that \<open>isListening\<close>, \<open>conversationActive\<close> and \<open>wakeWordDetected\<close> had in
  the render that created it, while refs and state setters act on the current state. A
  callback that reads one of the three values takes the render it was created in as an
  argument.
\<close>

record render =
  isListening_r :: bool
  conversationActive_r :: bool
  wakeWordDetected_r :: bool

text \<open>
  The fields up to \<open>silenceTimerRef\<close> are \<open>useWakeWordDetection\<close>'s state and refs
  (\<open>recognitionRef\<close> says whether a recognition object exists, \<open>recActive\<close> whether
  that object is started); the fields up to \<open>isConnectingRef\<close> are
  \<open>useRealtimeAgent\<close>'s (\<open>sessionRef\<close> holds the identity of the session object).
  \<open>registeredRender\<close> is the render whose \<open>handleSpeechResult\<close>, \<open>handleSpeechError\<close>
  and \<open>handleSpeechEnd\<close> the mount effect has assigned to the recognition object: the
  effect has an empty dependency list, so they are assigned once per mount and later
  renders do not replace them.
  \<open>awaitingToken\<close> counts the \<open>connect()\<close> calls suspended at the token fetch and
  \<open>establishing\<close> lists the sessions whose \<open>connect\<close> promise is pending.
  Browser timer handles are positive, so a stored handle is always truthy.
\<close>

record app =
  isListening :: bool
  wakeWordDetected :: bool
  conversationActive :: bool
  speechError :: "string option"
  recognitionRef :: bool
  recActive :: bool
  registeredRender :: render
  silenceTimerRef :: "nat option"
  isConnected :: bool
  isConnecting :: bool
  isSpeaking :: bool
  agentError :: "string option"
  sessionRef :: "nat option"
  agentRef :: bool
  isConnectingRef :: bool
  awaitingToken :: nat
  establishing :: "nat list"
  nextSession :: nat
  timers :: "nat \<rightharpoonup> nat \<times> timer_callback"
  nextHandle :: nat
  trace :: "effect list"

text \<open>The render of a state, and the first render, made from the initial values.\<close>

definition render_of :: "app \<Rightarrow> render" where
  "render_of s =
     \<lparr>isListening_r = isListening s, conversationActive_r = conversationActive s,
      wakeWordDetected_r = wakeWordDetected s\<rparr>"

definition first_render :: render where
  "first_render =
     \<lparr>isListening_r = False, conversationActive_r = False, wakeWordDetected_r = False\<rparr>"

definition emit :: "effect \<Rightarrow> app \<Rightarrow> app" where
  "emit e s = s\<lparr>trace := trace s @ [e]\<rparr>"

definition clearTimeout :: "nat \<Rightarrow> app \<Rightarrow> app" where
  "clearTimeout h s = s\<lparr>timers := (timers s)(h := None)\<rparr>"

definition setTimeout :: "timer_callback \<Rightarrow> nat \<Rightarrow> app \<Rightarrow> nat \<times> app" where
  "setTimeout cb ms s =
     (nextHandle s,
      s\<lparr>timers := (timers s)(nextHandle s \<mapsto> (ms, cb)), nextHandle := Suc (nextHandle s)\<rparr>)"

text \<open>
  The listening device (Web Speech API): \<open>start()\<close> on a started object raises
  \<open>InvalidStateError\<close>, otherwise it starts the object; \<open>stop()\<close> never raises.
\<close>

definition recognition_start :: "app \<Rightarrow> string + app" where
  "recognition_start s =
     (if recActive s then Inl ''InvalidStateError''
      else Inr (emit RecognitionStart (s\<lparr>recActive := True\<rparr>)))"

definition recognition_stop :: "app \<Rightarrow> app" where
  "recognition_stop s = emit RecognitionStop (s\<lparr>recActive := False\<rparr>)"

section \<open>useWakeWordDetection\<close>

text \<open>
  The hook's options. \<open>silenceTimeoutMs\<close> defaults to 10000 when it is not given.
  Effects and handlers run in a browser only, where \<open>window\<close> is defined, so the
  \<open>typeof window\<close> tests of the source are taken as true. Playing the tone and closing
  a session are taken not to raise.
\<close>

record wake_options =
  wakeWord :: string
  onWakeWordDetected :: "app \<Rightarrow> app"
  onConversationTimeout :: "(app \<Rightarrow> app) option"
  silenceTimeoutMs :: "nat option"

definition silence_ms :: "wake_options \<Rightarrow> nat" where
  "silence_ms p = (case silenceTimeoutMs p of None \<Rightarrow> 10000 | Some ms \<Rightarrow> ms)"

definition call_opt :: "(app \<Rightarrow> app) option \<Rightarrow> app \<Rightarrow> app" where
  "call_opt f s = (case f of None \<Rightarrow> s | Some g \<Rightarrow> g s)"

definition mount_wake :: "bool \<Rightarrow> app \<Rightarrow> app" where
  "mount_wake hasSpeechRecognition s =
     (if hasSpeechRecognition
      then s\<lparr>recognitionRef := True, recActive := False, registeredRender := render_of s\<rparr>
      else s\<lparr>speechError := Some ''Speech recognition not supported in this browser''\<rparr>)"

definition cleanup_wake :: "app \<Rightarrow> app" where
  "cleanup_wake s =
     (let s1 = (if recognitionRef s then recognition_stop s else s)
      in case silenceTimerRef s1 of None \<Rightarrow> s1 | Some h \<Rightarrow> clearTimeout h s1)"

definition playWakeWordSound :: "app \<Rightarrow> app" where
  "playWakeWordSound s = emit WakeTone s"

definition resetSilenceTimer :: "wake_options \<Rightarrow> render \<Rightarrow> app \<Rightarrow> app" where
  "resetSilenceTimer p r s =
     (let s1 = (case silenceTimerRef s of None \<Rightarrow> s | Some h \<Rightarrow> clearTimeout h s);
          (h', s2) = setTimeout (SilenceTimeout (isListening_r r)) (silence_ms p) s1
      in emit (CountdownStarted (silence_ms p)) (s2\<lparr>silenceTimerRef := Some h'\<rparr>))"

text \<open>
  The body of the silence timeout, up to the call of \<open>onConversationTimeout\<close>, and
  the whole callback. A failing \<open>start()\<close> is caught and logged.
\<close>

definition silenceTimeout_body :: "bool \<Rightarrow> app \<Rightarrow> app" where
  "silenceTimeout_body listening s =
     (let s1 = s\<lparr>conversationActive := False, wakeWordDetected := False\<rparr>
      in if recognitionRef s1 \<and> listening
         then (case recognition_start s1 of Inl err \<Rightarrow> s1 | Inr s2 \<Rightarrow> s2)
         else s1)"

definition silenceTimeout :: "wake_options \<Rightarrow> bool \<Rightarrow> app \<Rightarrow> app" where
  "silenceTimeout p listening s =
     (let s1 = silenceTimeout_body listening s
      in case onConversationTimeout p of
           None \<Rightarrow> s1
         | Some f \<Rightarrow> f (emit TimeoutCallback s1))"

definition handleSpeechResult ::
  "wake_options \<Rightarrow> render \<Rightarrow> speech_event \<Rightarrow> app \<Rightarrow> app" where
  "handleSpeechResult p r ev s =
     (let transcript = transcript_of ev in
      if \<not> conversationActive_r r \<and> \<not> wakeWordDetected_r r
         \<and> includes_str transcript (toLowerCase (wakeWord p))
      then
        (let s1 = s\<lparr>wakeWordDetected := True, conversationActive := True\<rparr>;
             s2 = (if recognitionRef s1 then recognition_stop s1 else s1);
             s3 = playWakeWordSound s2;
             s4 = resetSilenceTimer p r s3
         in onWakeWordDetected p (emit WakeCallback s4))
      else s)"

definition handleSpeechError :: "string \<Rightarrow> app \<Rightarrow> app" where
  "handleSpeechError err s =
     (if err \<noteq> ''no-speech''
      then s\<lparr>speechError := Some (''Speech recognition error: '' @ err)\<rparr>
      else s)"

definition handleSpeechEnd :: "render \<Rightarrow> app \<Rightarrow> app" where
  "handleSpeechEnd r s =
     (if isListening_r r \<and> \<not> conversationActive_r r
      then snd (setTimeout RestartRecognition 100 s)
      else s)"

text \<open>
  The restart callback tests the same two values of the same render again, which held
  when it was scheduled, so its test comes down to the recognition object being there.
\<close>

definition restartRecognition :: "app \<Rightarrow> app" where
  "restartRecognition s =
     (if recognitionRef s
      then (case recognition_start s of Inl err \<Rightarrow> s | Inr s1 \<Rightarrow> s1)
      else s)"

definition startListening :: "app \<Rightarrow> app" where
  "startListening s =
     (let s1 = s\<lparr>speechError := None\<rparr>
      in if recognitionRef s1
         then (case recognition_start s1 of
                 Inl err \<Rightarrow> s1\<lparr>speechError := Some (''Failed to start listening: '' @ err)\<rparr>
               | Inr s2 \<Rightarrow> s2\<lparr>isListening := True\<rparr>)
         else s1)"

definition stopListening :: "app \<Rightarrow> app" where
  "stopListening s =
     (let s1 = (if recognitionRef s then recognition_stop s else s);
          s2 = s1\<lparr>isListening := False, conversationActive := False, wakeWordDetected := False\<rparr>
      in case silenceTimerRef s2 of None \<Rightarrow> s2 | Some h \<Rightarrow> clearTimeout h s2)"

definition clearSpeechError :: "app \<Rightarrow> app" where
  "clearSpeechError s = s\<lparr>speechError := None\<rparr>"

definition pauseSilenceTimer :: "app \<Rightarrow> app" where
  "pauseSilenceTimer s =
     (case silenceTimerRef s of
        None \<Rightarrow> s
      | Some h \<Rightarrow> (clearTimeout h s)\<lparr>silenceTimerRef := None\<rparr>)"

definition resumeSilenceTimer :: "wake_options \<Rightarrow> render \<Rightarrow> app \<Rightarrow> app" where
  "resumeSilenceTimer p r s = resetSilenceTimer p r s"

text \<open>The countdown that the hook's timer reference points to, if it is pending.\<close>

definition pendingCountdown :: "app \<Rightarrow> nat option" where
  "pendingCountdown s =
     (case silenceTimerRef s of
        None \<Rightarrow> None
      | Some h \<Rightarrow> (case timers s h of
                     Some (ms, SilenceTimeout l) \<Rightarrow> Some ms
                   | _ \<Rightarrow> None))"


section \<open>useRealtimeAgent\<close>

record agent_options =
  onAudioStart :: "(app \<Rightarrow> app) option"
  onAudioStopped :: "(app \<Rightarrow> app) option"
  onUserSpeechStart :: "(app \<Rightarrow> app) option"
  onUserSpeechStop :: "(app \<Rightarrow> app) option"

definition mount_agent :: "app \<Rightarrow> app" where
  "mount_agent s = (if \<not> agentRef s then s\<lparr>agentRef := True\<rparr> else s)"

definition cleanup_agent :: "app \<Rightarrow> app" where
  "cleanup_agent s =
     (let s1 = (case sessionRef s of
                  None \<Rightarrow> s
                | Some k \<Rightarrow> (emit (SessionClosed k) s)\<lparr>sessionRef := None\<rparr>)
      in s1\<lparr>isConnectingRef := False\<rparr>)"

text \<open>
  \<open>connect\<close> is asynchronous. It is modelled by the code it runs between suspensions:
  \<open>connect\<close> is the part a call runs before it suspends at the token fetch;
  \<open>connect_after_fetch\<close> resumes one suspended call with the outcome of the fetch
  (and of reading its body) and runs up to the suspension at the session's \<open>connect\<close>;
  \<open>connect_after_establish\<close> resumes the call suspended on session \<open>k\<close>;
  \<open>connect_catch\<close> is the \<open>catch\<close> block.
\<close>

datatype fetch_outcome =
    FetchRejected string
  | ResponseNotOk
  | JsonRejected string
  | TokenBody string

datatype establish_outcome =
    Established
  | EstablishRejected string

definition connect :: "app \<Rightarrow> app" where
  "connect s =
     (if \<not> agentRef s then s\<lparr>agentError := Some ''Agent not initialized''\<rparr>
      else if isConnectingRef s \<or> sessionRef s \<noteq> None then s
      else emit TokenRequested
             (s\<lparr>isConnectingRef := True, isConnecting := True, agentError := None,
                awaitingToken := Suc (awaitingToken s)\<rparr>))"

definition connect_catch :: "string \<Rightarrow> app \<Rightarrow> app" where
  "connect_catch msg s =
     s\<lparr>agentError := Some msg, isConnecting := False, isConnectingRef := False\<rparr>"

definition connect_after_fetch :: "fetch_outcome \<Rightarrow> app \<Rightarrow> app" where
  "connect_after_fetch out s =
     (if awaitingToken s = 0 then s
      else
        (let s1 = s\<lparr>awaitingToken := awaitingToken s - 1\<rparr> in
         case out of
           FetchRejected msg \<Rightarrow> connect_catch msg s1
         | ResponseNotOk \<Rightarrow> connect_catch ''Failed to get authentication token'' s1
         | JsonRejected msg \<Rightarrow> connect_catch msg s1
         | TokenBody token \<Rightarrow>
             (let k = nextSession s1;
                  s2 = emit (SessionCreated k) (s1\<lparr>sessionRef := Some k, nextSession := Suc k\<rparr>)
              in emit (EstablishInvoked k) (s2\<lparr>establishing := establishing s2 @ [k]\<rparr>))))"

definition connect_after_establish :: "nat \<Rightarrow> establish_outcome \<Rightarrow> app \<Rightarrow> app" where
  "connect_after_establish k out s =
     (if k \<notin> set (establishing s) then s
      else
        (let s1 = s\<lparr>establishing := removeAll k (establishing s)\<rparr> in
         case out of
           EstablishRejected msg \<Rightarrow> connect_catch msg s1
         | Established \<Rightarrow>
             (case sessionRef s1 of
                None \<Rightarrow> connect_catch ''Cannot read properties of null (reading 'on')'' s1
              | Some j \<Rightarrow>
                  (emit (ListenersRegistered j) s1)\<lparr>isConnected := True, isConnecting := False\<rparr>)))"

definition disconnect :: "app \<Rightarrow> app" where
  "disconnect s =
     (let s1 = (case sessionRef s of
                  None \<Rightarrow> s
                | Some k \<Rightarrow> (emit (SessionClosed k) s)\<lparr>sessionRef := None\<rparr>)
      in s1\<lparr>isConnected := False, isConnecting := False, isSpeaking := False,
            isConnectingRef := False\<rparr>)"

definition clearAgentError :: "app \<Rightarrow> app" where
  "clearAgentError s = s\<lparr>agentError := None\<rparr>"

text \<open>The listeners that \<open>connect\<close> registers on the session.\<close>

definition audio_start :: "agent_options \<Rightarrow> app \<Rightarrow> app" where
  "audio_start opts s = call_opt (onAudioStart opts) (s\<lparr>isSpeaking := True\<rparr>)"

definition audio_stopped :: "agent_options \<Rightarrow> app \<Rightarrow> app" where
  "audio_stopped opts s = call_opt (onAudioStopped opts) (s\<lparr>isSpeaking := False\<rparr>)"

definition transport_event :: "agent_options \<Rightarrow> string \<Rightarrow> app \<Rightarrow> app" where
  "transport_event opts type s =
     (if type = ''input_audio_buffer.speech_started'' then call_opt (onUserSpeechStart opts) s
      else if type = ''input_audio_buffer.speech_stopped'' then call_opt (onUserSpeechStop opts) s
      else s)"

section \<open>The page: wiring of the two hooks\<close>

text \<open>
  The page passes the wake word \<open>w\<close> of its environment and no \<open>silenceTimeoutMs\<close>.
  Its wake callback schedules \<open>connect()\<close> 800 ms later and keeps no handle of that
  timer; its timeout callback calls \<open>disconnect()\<close>.
\<close>

definition page_wake_options :: "string \<Rightarrow> wake_options" where
  "page_wake_options w =
     \<lparr>wakeWord = w,
      onWakeWordDetected = (\<lambda>s. snd (setTimeout DelayedConnect 800 s)),
      onConversationTimeout = Some disconnect,
      silenceTimeoutMs = None\<rparr>"

definition page_agent_options :: "string \<Rightarrow> render \<Rightarrow> agent_options" where
  "page_agent_options w r =
     \<lparr>onAudioStart = Some pauseSilenceTimer,
      onAudioStopped = Some (resumeSilenceTimer (page_wake_options w) r),
      onUserSpeechStart = Some pauseSilenceTimer,
      onUserSpeechStop = Some (\<lambda>s. s)\<rparr>"

text \<open>
  The button's handler is made anew in every render, so it reads the current
  \<open>isListening\<close>. The button is disabled while \<open>isConnecting\<close> holds.
\<close>

definition handleToggleListening :: "app \<Rightarrow> app" where
  "handleToggleListening s =
     (if isListening s then disconnect (stopListening s) else startListening s)"

definition clearError :: "app \<Rightarrow> app" where
  "clearError s = clearSpeechError (clearAgentError s)"

text \<open>
  The state of the first render, before any effect has run, and the mount effects of the
  two hooks in a browser that has or lacks speech recognition.
\<close>

definition initial_state :: app where
  "initial_state =
     \<lparr>isListening = False, wakeWordDetected = False, conversationActive = False,
      speechError = None, recognitionRef = False, recActive = False,
      registeredRender = first_render, silenceTimerRef = None,
      isConnected = False, isConnecting = False, isSpeaking = False, agentError = None,
      sessionRef = None, agentRef = False, isConnectingRef = False,
      awaitingToken = 0, establishing = [], nextSession = 0,
      timers = Map.empty, nextHandle = 1, trace = []\<rparr>"

definition mount :: "bool \<Rightarrow> app \<Rightarrow> app" where
  "mount hasSpeechRecognition s = mount_agent (mount_wake hasSpeechRecognition s)"

definition unmount :: "app \<Rightarrow> app" where
  "unmount s = cleanup_agent (cleanup_wake s)"

section \<open>Events\<close>

text \<open>
  Time passes by \<open>elapse\<close>, which counts every pending timer down; a timer that has
  reached zero can fire. The events of the page are the mount cycle, the button, what
  the recognition object, the timers, the token fetch and the session deliver, and
  direct calls of the operations the hooks return.

  The recognition object calls the handlers of \<open>registeredRender\<close>; it can deliver a
  result after \<open>stop()\<close>, for the audio it has already captured. The session's
  listeners are registered inside \<open>connect\<close>, which \<open>useCallback\<close> creates once with an
  empty dependency list: they call the callbacks that the page passed in its first
  render, so the \<open>resumeSilenceTimer\<close> they reach is the one of the first render. A
  direct call of \<open>resumeSilenceTimer\<close> can be made with the version of any render, and
  the event carries it.
\<close>

definition elapse :: "nat \<Rightarrow> app \<Rightarrow> app" where
  "elapse d s =
     s\<lparr>timers := (\<lambda>h. map_option (\<lambda>(ms, cb). (ms - d, cb)) (timers s h))\<rparr>"

definition run_timer :: "string \<Rightarrow> timer_callback \<Rightarrow> app \<Rightarrow> app" where
  "run_timer w cb s =
     (case cb of
        SilenceTimeout listening \<Rightarrow> silenceTimeout (page_wake_options w) listening s
      | RestartRecognition \<Rightarrow> restartRecognition s
      | DelayedConnect \<Rightarrow> connect s)"

definition fire :: "string \<Rightarrow> nat \<Rightarrow> app \<Rightarrow> app" where
  "fire w h s =
     (case timers s h of
        None \<Rightarrow> s
      | Some (ms, cb) \<Rightarrow> if ms = 0 then run_timer w cb (clearTimeout h s) else s)"

datatype event =
    Remount bool
  | ToggleListening
  | SpeechResult speech_event
  | SpeechError string
  | SpeechEnd
  | ClearError
  | Elapse nat
  | Fire nat
  | FetchDone fetch_outcome
  | EstablishDone nat establish_outcome
  | AudioStart
  | AudioStopped
  | TransportEvent string
  | CallStartListening
  | CallStopListening
  | CallPauseSilenceTimer
  | CallResumeSilenceTimer render
  | CallConnect
  | CallDisconnect

fun step :: "string \<Rightarrow> event \<Rightarrow> app \<Rightarrow> app" where
  "step w (Remount sr) s = mount sr (unmount s)"
| "step w ToggleListening s = (if isConnecting s then s else handleToggleListening s)"
| "step w (SpeechResult ev) s =
     (if recognitionRef s
      then handleSpeechResult (page_wake_options w) (registeredRender s) ev s
      else s)"
| "step w (SpeechError err) s = (if recognitionRef s then handleSpeechError err s else s)"
| "step w SpeechEnd s =
     (if recognitionRef s
      then handleSpeechEnd (registeredRender s) (s\<lparr>recActive := False\<rparr>)
      else s)"
| "step w ClearError s = clearError s"
| "step w (Elapse d) s = elapse d s"
| "step w (Fire h) s = fire w h s"
| "step w (FetchDone out) s = connect_after_fetch out s"
| "step w (EstablishDone k out) s = connect_after_establish k out s"
| "step w AudioStart s = audio_start (page_agent_options w first_render) s"
| "step w AudioStopped s = audio_stopped (page_agent_options w first_render) s"
| "step w (TransportEvent type) s =
     transport_event (page_agent_options w first_render) type s"
| "step w CallStartListening s = startListening s"
| "step w CallStopListening s = stopListening s"
| "step w CallPauseSilenceTimer s = pauseSilenceTimer s"
| "step w (CallResumeSilenceTimer r) s = resumeSilenceTimer (page_wake_options w) r s"
| "step w CallConnect s = connect s"
| "step w CallDisconnect s = disconnect s"

definition run :: "string \<Rightarrow> event list \<Rightarrow> app \<Rightarrow> app" where
  "run w evs s = fold (step w) evs s"





text \<open>
  What can happen to the connection between two disconnects: calls of \<open>connect\<close> and
  resumptions of suspended calls.
\<close>

datatype link_event =
    Connect
  | FetchResumes fetch_outcome
  | EstablishResumes nat establish_outcome

fun link_step :: "link_event \<Rightarrow> app \<Rightarrow> app" where
  "link_step Connect s = connect s"
| "link_step (FetchResumes out) s = connect_after_fetch out s"
| "link_step (EstablishResumes k out) s = connect_after_establish k out s"

fun is_remount :: "event \<Rightarrow> bool" where
  "is_remount (Remount sr) = True"
| "is_remount ev = False"

fun is_establish :: "effect \<Rightarrow> bool" where
  "is_establish (EstablishInvoked k) = True"
| "is_establish e = False"

definition establish_count :: "app \<Rightarrow> nat" where
  "establish_count s = length (filter is_establish (trace s))"

text \<open>A call of \<open>connect\<close> gets past its two checks in exactly these states.\<close>

definition passes_lock_check :: "app \<Rightarrow> bool" where
  "passes_lock_check s = (agentRef s \<and> \<not> isConnectingRef s \<and> sessionRef s = None)"

text \<open>
  The invariant of a cycle that began with \<open>e0\<close> establishments in the trace and no
  suspended call: at most one call is suspended at the token fetch, and it holds the
  lock while no session exists; as long as no session exists nothing has been
  established in this cycle; and at most one establishment has been invoked.
\<close>

definition cycle_inv :: "nat \<Rightarrow> app \<Rightarrow> bool" where
  "cycle_inv e0 s =
     (awaitingToken s \<le> 1
      \<and> (awaitingToken s = 1 \<longrightarrow>
           isConnectingRef s \<and> sessionRef s = None \<and> establishing s = []
           \<and> establish_count s = e0)
      \<and> (sessionRef s = None \<longrightarrow> establishing s = [] \<and> establish_count s = e0)
      \<and> establish_count s \<le> Suc e0)"

text \<open>
  Every pending silence timeout is the one the hook's timer reference points to.
\<close>

definition countdown_referenced :: "app \<Rightarrow> bool" where
  "countdown_referenced s =
     (\<forall>h ms l. timers s h = Some (ms, SilenceTimeout l) \<longrightarrow> silenceTimerRef s = Some h)"

text \<open>
  The page after the button has been pressed once, in a browser with speech
  recognition; the same page after "hey guide" has been heard; and after it has been
  heard a second time.
\<close>

definition listening_page :: app where
  "listening_page = step ''guide'' ToggleListening (mount True initial_state)"

definition woken_page :: app where
  "woken_page = step ''guide'' (SpeechResult [(''hey guide'', [])]) listening_page"

definition twice_woken_page :: app where
  "twice_woken_page = step ''guide'' (SpeechResult [(''hey guide'', [])]) woken_page"

text \<open>
  A token fetch that outlasts the conversation: "hey guide" is heard, the delayed
  \<open>connect()\<close> runs after 800 ms and suspends at the token fetch; the fetch is still
  pending when the silence countdown ends 9200 ms later, and the timeout callback
  disconnects. The button is pressed twice (stop, start), "hey guide" is heard again
  and the second delayed \<open>connect()\<close> runs. Then the two fetches return, each with a
  token.
\<close>

definition slow_token_fetch :: app where
  "slow_token_fetch =
     run ''guide''
       [SpeechResult [(''hey guide'', [])], Elapse 800, Fire 2, Elapse 9200, Fire 1,
        ToggleListening, ToggleListening,
        SpeechResult [(''hey guide'', [])], Elapse 800, Fire 4,
        FetchDone (TokenBody ''ek_1''), FetchDone (TokenBody ''ek_2'')]
       listening_page"

text \<open>
  The button pressed during the settle delay: "hey guide" is heard, the button is
  pressed (stop) before the 800 ms have passed, the delayed \<open>connect()\<close> runs all the
  same, the token arrives and the session is established, and the button is pressed
  again (start).
\<close>

definition stopped_during_settle_delay :: app where
  "stopped_during_settle_delay =
     run ''guide''
       [SpeechResult [(''hey guide'', [])], ToggleListening, Elapse 800, Fire 2,
        FetchDone (TokenBody ''ek_1''), EstablishDone 0 Established, ToggleListening]
       listening_page"

text \<open>
  A connect attempt whose token fetch succeeds and whose session establishment is
  rejected.
\<close>

definition failed_establishment :: app where
  "failed_establishment =
     connect_after_establish 0 (EstablishRejected ''connection failed'')
       (connect_after_fetch (TokenBody ''ek_1'') (connect (mount True initial_state)))"

section \<open>Basic facts\<close>

lemma includes_str_sublist: "includes_str s w \<longleftrightarrow> sublist w s"
  by (induction s) (auto simp: sublist_Cons_right)

lemma toLowerChar_add32:
  "toLowerChar c =
     (if (65 \<le> (of_char c :: nat) \<and> (of_char c :: nat) \<le> 90)
         \<or> (192 \<le> (of_char c :: nat) \<and> (of_char c :: nat) \<le> 222
             \<and> (of_char c :: nat) \<noteq> 215)
      then char_of ((of_char c :: nat) + 32) else c)"
proof (cases c)
  case (Char b0 b1 b2 b3 b4 b5 b6 b7)
  show ?thesis
    unfolding Char toLowerChar_def Let_def
    by (cases b0; cases b1; cases b2; cases b3; cases b4; cases b5; cases b6; cases b7)
       (simp_all add: char_of_def bit_Suc bit_0)
qed

lemmas hook_defs =
  handleSpeechResult_def handleSpeechError_def handleSpeechEnd_def restartRecognition_def
  startListening_def stopListening_def clearSpeechError_def pauseSilenceTimer_def
  resumeSilenceTimer_def resetSilenceTimer_def silenceTimeout_def silenceTimeout_body_def
  playWakeWordSound_def mount_wake_def cleanup_wake_def
  connect_def connect_catch_def connect_after_fetch_def connect_after_establish_def
  disconnect_def clearAgentError_def audio_start_def audio_stopped_def transport_event_def
  mount_agent_def cleanup_agent_def
  page_wake_options_def page_agent_options_def handleToggleListening_def clearError_def
  mount_def unmount_def elapse_def run_timer_def fire_def
  emit_def clearTimeout_def setTimeout_def recognition_start_def recognition_stop_def
  call_opt_def silence_ms_def render_of_def

lemmas string_defs =
  transcript_of_def trim_def toLowerCase_def toLowerChar_def isWhiteSpace_def



lemma pause_facts:
  "trace (pauseSilenceTimer s) = trace s"
  "silenceTimerRef (pauseSilenceTimer s) = None"
  "pendingCountdown (pauseSilenceTimer s) = None"
  by (simp_all add: pauseSilenceTimer_def clearTimeout_def pendingCountdown_def
        split: option.splits)

lemma reset_facts:
  "trace (resetSilenceTimer p r s) = trace s @ [CountdownStarted (silence_ms p)]"
  "pendingCountdown (resetSilenceTimer p r s) = Some (silence_ms p)"
  by (simp_all add: resetSilenceTimer_def setTimeout_def clearTimeout_def emit_def
        pendingCountdown_def Let_def split: option.splits)

lemma listening_page_facts:
  "recognitionRef listening_page"
  "isListening listening_page"
  "recActive listening_page"
  "\<not> conversationActive listening_page"
  "\<not> wakeWordDetected listening_page"
  "registeredRender listening_page = first_render"
  "trace listening_page = [RecognitionStart]"
  by (simp_all add: listening_page_def hook_defs initial_state_def first_render_def)

lemma woken_page_facts:
  "recognitionRef woken_page"
  "isListening woken_page"
  "\<not> recActive woken_page"
  "conversationActive woken_page"
  "wakeWordDetected woken_page"
  "registeredRender woken_page = first_render"
  "pendingCountdown woken_page = Some 10000"
  "trace woken_page
     = [RecognitionStart, RecognitionStop, WakeTone, CountdownStarted 10000, WakeCallback]"
  by (simp_all add: woken_page_def listening_page_def hook_defs string_defs
        initial_state_def first_render_def pendingCountdown_def Let_def)

subsection \<open>The two flags of the gate\<close>

lemma step_flags:
  "wakeWordDetected s = conversationActive s \<Longrightarrow>
   wakeWordDetected (step w ev s) = conversationActive (step w ev s)"
  by (cases ev)
     (auto simp: hook_defs Let_def
           split: option.splits sum.splits timer_callback.splits fetch_outcome.splits
                  establish_outcome.splits prod.splits if_splits)

lemma run_flags:
  "wakeWordDetected s = conversationActive s \<Longrightarrow>
   wakeWordDetected (run w evs s) = conversationActive (run w evs s)"
  unfolding run_def by (induction evs arbitrary: s) (simp_all add: step_flags)

lemma mount_flags:
  "wakeWordDetected (mount sr initial_state) = conversationActive (mount sr initial_state)"
  by (simp add: mount_def mount_wake_def mount_agent_def initial_state_def)

text \<open>
  C10: in every state the page can reach from its first render, by any sequence of
  events and of calls of the hooks' operations, \<open>wakeWordDetected\<close> and
  \<open>conversationActive\<close> are equal: the wake match sets both, the silence timeout and
  \<open>stopListening\<close> clear both, and nothing else writes either.
\<close>

theorem wake_flags_agree:
  "wakeWordDetected (run w evs (mount sr initial_state))
     = conversationActive (run w evs (mount sr initial_state))"
  by (rule run_flags) (rule mount_flags)

subsection \<open>Transcripts during a conversation\<close>

text \<open>
  The guard of the handler: a \<open>handleSpeechResult\<close> created by a render in which
  \<open>conversationActive\<close> holds leaves the whole state as it was for any sequence of
  transcript events, whatever the transcripts contain and whatever the callbacks are.
\<close>

theorem guarded_handler_ignores_transcripts:
  "conversationActive_r r \<Longrightarrow>
   fold (handleSpeechResult p r) evs s = s
   \<and> count_list (trace (fold (handleSpeechResult p r) evs s)) WakeCallback
       = count_list (trace s) WakeCallback"
proof (induction evs)
  case Nil
  show ?case by simp
next
  case (Cons ev evs)
  have "handleSpeechResult p r ev s = s"
    using Cons.prems by (simp add: handleSpeechResult_def)
  with Cons show ?case by simp
qed

theorem guarded_handler_ignores_transcripts_witness:
  "conversationActive_r (render_of woken_page)
   \<and> fold (handleSpeechResult (page_wake_options ''guide'') (render_of woken_page))
        [[(''Guide'', [])], [(''hey guide'', [])]] woken_page
      = woken_page"
proof -
  have r: "conversationActive_r (render_of woken_page)"
    by (simp add: render_of_def woken_page_facts)
  from guarded_handler_ignores_transcripts [OF r, of "page_wake_options ''guide''"
      "[[(''Guide'', [])], [(''hey guide'', [])]]" woken_page] r
  show ?thesis by blast
qed

text \<open>
  C4 says that no transcript delivered while the conversation is active fires the wake
  callback. On the mounted page one does: the page is listening and "hey guide" is
  heard, so the conversation is active; then a second transcript with the wake word is
  delivered.
  The handler that the recognition object holds is the one of the first render, in
  whose closure both flags are false for good, so its guard does not hold the event
  back: the recognition is stopped again, the tone is played again, the countdown is
  restarted and the wake callback is called a second time.
\<close>

theorem wake_retriggered_by_registered_handler:
  "conversationActive woken_page
   \<and> wakeWordDetected woken_page
   \<and> registeredRender woken_page = first_render
   \<and> count_list (trace woken_page) WakeCallback = 1
   \<and> trace twice_woken_page
       = trace woken_page @ [RecognitionStop, WakeTone, CountdownStarted 10000, WakeCallback]
   \<and> count_list (trace twice_woken_page) WakeCallback = 2"
  by (simp add: twice_woken_page_def woken_page_facts handleSpeechResult_def
        page_wake_options_def first_render_def string_defs recognition_stop_def
        playWakeWordSound_def resetSilenceTimer_def setTimeout_def clearTimeout_def emit_def
        silence_ms_def Let_def split: option.splits)

subsection \<open>Disconnecting\<close>

text \<open>
  C9: \<open>disconnect\<close> has no failing branch. From every state, with or without a
  session, it leaves the status Disconnected (neither connected nor connecting), no
  session object and the connect lock clear, and a second call changes nothing more.
\<close>

theorem disconnect_idempotent:
  "isConnected (disconnect s) = False
   \<and> isConnecting (disconnect s) = False
   \<and> sessionRef (disconnect s) = None
   \<and> isConnectingRef (disconnect s) = False
   \<and> disconnect (disconnect s) = disconnect s"
  by (simp add: disconnect_def emit_def Let_def split: option.splits)

subsection \<open>Pausing and resuming the silence timer\<close>

text \<open>
  C5: from every state, and however much time \<open>d\<close> of a running countdown has
  elapsed, \<open>pauseSilenceTimer\<close> leaves no pending countdown and no timer reference
  (the countdown is discarded, its remaining time is kept nowhere), and
  \<open>resumeSilenceTimer\<close> after it leaves a pending countdown of the full configured
  duration, which is 10000 ms when the option is not given.
\<close>

theorem pause_resume_full_duration:
  "pendingCountdown (pauseSilenceTimer (elapse d s)) = None
   \<and> silenceTimerRef (pauseSilenceTimer (elapse d s)) = None
   \<and> (case silenceTimerRef (elapse d s) of
         None \<Rightarrow> True
       | Some h \<Rightarrow> timers (pauseSilenceTimer (elapse d s)) h = None)
   \<and> pendingCountdown (resumeSilenceTimer p r (pauseSilenceTimer (elapse d s)))
       = Some (silence_ms p)
   \<and> silence_ms (p\<lparr>silenceTimeoutMs := None\<rparr>) = 10000"
  by (simp add: pause_facts resumeSilenceTimer_def reset_facts silence_ms_def)
     (simp add: pauseSilenceTimer_def clearTimeout_def split: option.splits)

subsection \<open>At most one countdown\<close>

lemma step_countdown_referenced:
  "countdown_referenced s \<Longrightarrow> countdown_referenced (step w ev s)"
  unfolding countdown_referenced_def
  apply (cases ev)
  apply (auto simp: hook_defs Let_def
           split: option.splits sum.splits timer_callback.splits fetch_outcome.splits
                  establish_outcome.splits prod.splits if_splits)
  apply blast+
  done

lemma run_countdown_referenced:
  "countdown_referenced s \<Longrightarrow> countdown_referenced (run w evs s)"
  unfolding run_def by (induction evs arbitrary: s) (simp_all add: step_countdown_referenced)

lemma mount_countdown_referenced: "countdown_referenced (mount sr initial_state)"
  by (simp add: countdown_referenced_def mount_def mount_wake_def mount_agent_def
        initial_state_def)

text \<open>
  In every state the page can reach, a pending silence timeout is the one that
  \<open>silenceTimerRef\<close> points to: at most one countdown is pending, and where
  \<open>pendingCountdown\<close> is \<open>None\<close> no silence timeout is pending at all.
\<close>

theorem single_countdown:
  "(timers (run w evs (mount sr initial_state)) h = Some (ms, SilenceTimeout l) \<longrightarrow>
      silenceTimerRef (run w evs (mount sr initial_state)) = Some h)
   \<and> (pendingCountdown (run w evs (mount sr initial_state)) = None \<longrightarrow>
      timers (run w evs (mount sr initial_state)) h \<noteq> Some (ms, SilenceTimeout l))"
proof -
  let ?s = "run w evs (mount sr initial_state)"
  have inv: "countdown_referenced ?s"
    by (rule run_countdown_referenced) (rule mount_countdown_referenced)
  have a: "timers ?s h = Some (ms, SilenceTimeout l) \<Longrightarrow> silenceTimerRef ?s = Some h"
    using inv unfolding countdown_referenced_def by blast
  have b: "pendingCountdown ?s = None \<Longrightarrow> timers ?s h \<noteq> Some (ms, SilenceTimeout l)"
  proof
    assume n: "pendingCountdown ?s = None" and t: "timers ?s h = Some (ms, SilenceTimeout l)"
    from a [OF t] t have "pendingCountdown ?s = Some ms" by (simp add: pendingCountdown_def)
    with n show False by simp
  qed
  from a b show ?thesis by blast
qed

theorem single_countdown_witness:
  "timers (run ''guide'' [ToggleListening, SpeechResult [(''hey guide'', [])]]
            (mount True initial_state)) 1 = Some (10000, SilenceTimeout False)
   \<and> silenceTimerRef (run ''guide'' [ToggleListening, SpeechResult [(''hey guide'', [])]]
            (mount True initial_state)) = Some 1"
proof -
  have t: "timers (run ''guide'' [ToggleListening, SpeechResult [(''hey guide'', [])]]
            (mount True initial_state)) 1 = Some (10000, SilenceTimeout False)"
    by (simp add: run_def hook_defs string_defs initial_state_def first_render_def Let_def)
  from single_countdown [of "''guide''" "[ToggleListening, SpeechResult [(''hey guide'', [])]]"
      True 1 10000 False] t
  show ?thesis by blast
qed

subsection \<open>One conversational turn and the silence timer\<close>







subsection \<open>A browser without speech recognition\<close>

lemma step_unsupported:
  "ev \<noteq> Remount True \<Longrightarrow>
   \<not> recognitionRef s \<and> \<not> isListening s \<and> \<not> recActive s \<Longrightarrow>
   \<not> recognitionRef (step w ev s) \<and> \<not> isListening (step w ev s) \<and> \<not> recActive (step w ev s)"
  by (cases ev)
     (auto simp: hook_defs Let_def
           split: option.splits sum.splits timer_callback.splits fetch_outcome.splits
                  establish_outcome.splits prod.splits if_splits)

lemma run_unsupported:
  "Remount True \<notin> set evs \<Longrightarrow>
   \<not> recognitionRef s \<and> \<not> isListening s \<and> \<not> recActive s \<Longrightarrow>
   \<not> recognitionRef (run w evs s) \<and> \<not> isListening (run w evs s) \<and> \<not> recActive (run w evs s)"
proof (induction evs arbitrary: s)
  case Nil
  then show ?case by (simp add: run_def)
next
  case (Cons ev evs)
  from Cons.prems have ev: "ev \<noteq> Remount True" and rest: "Remount True \<notin> set evs"
    by auto
  have "\<not> recognitionRef (step w ev s) \<and> \<not> isListening (step w ev s)
      \<and> \<not> recActive (step w ev s)"
    using ev Cons.prems(2) by (rule step_unsupported)
  from Cons.IH [OF rest this] show ?case by (simp add: run_def)
qed

text \<open>
  C8 says that in a browser without speech recognition the component is, after
  \<open>startListening()\<close>, in a persistent error state. The code loses that state: the
  mount effect has set the error "Speech recognition not supported in this browser",
  but \<open>startListening\<close> begins by clearing the error and, finding no recognition
  object, does nothing else. After the call, made directly or by the page's button, no
  error value is set and the listening device is not reported active: nothing tells
  the user why the button has no effect.
\<close>

theorem startListening_clears_unsupported_error:
  "speechError (mount False initial_state)
     = Some ''Speech recognition not supported in this browser''
   \<and> speechError (startListening (mount False initial_state)) = None
   \<and> \<not> isListening (startListening (mount False initial_state))
   \<and> step ''guide'' ToggleListening (mount False initial_state)
       = startListening (mount False initial_state)
   \<and> startListening (mount False initial_state)
       = (mount False initial_state)\<lparr>speechError := None\<rparr>"
  by (simp add: startListening_def handleToggleListening_def mount_def mount_wake_def
        mount_agent_def initial_state_def)

text \<open>
  In a browser without speech recognition the hook's mount effect sets the error state
  "Speech recognition not supported in this browser" and creates no recognition
  object. Whatever happens afterwards, short of a remount in a browser that has speech
  recognition, the listening device is never reported active and is never started.
\<close>

theorem unsupported_capability:
  "speechError (mount False initial_state)
     = Some ''Speech recognition not supported in this browser''
   \<and> \<not> recognitionRef (mount False initial_state)
   \<and> (Remount True \<notin> set evs \<longrightarrow>
        \<not> isListening (run w evs (mount False initial_state))
        \<and> \<not> recActive (run w evs (mount False initial_state)))"
proof -
  have init: "\<not> recognitionRef (mount False initial_state)
      \<and> \<not> isListening (mount False initial_state) \<and> \<not> recActive (mount False initial_state)"
    by (simp add: mount_def mount_wake_def mount_agent_def initial_state_def)
  have "Remount True \<notin> set evs \<Longrightarrow>
        \<not> isListening (run w evs (mount False initial_state))
        \<and> \<not> recActive (run w evs (mount False initial_state))"
    using run_unsupported [OF _ init] by blast
  moreover have "speechError (mount False initial_state)
     = Some ''Speech recognition not supported in this browser''"
    by (simp add: mount_def mount_wake_def mount_agent_def initial_state_def)
  ultimately show ?thesis using init by blast
qed

theorem unsupported_capability_witness:
  "Remount True \<notin> set [CallStartListening, ToggleListening, Elapse 100]
   \<and> \<not> isListening (run ''guide'' [CallStartListening, ToggleListening, Elapse 100]
          (mount False initial_state))
   \<and> \<not> recActive (run ''guide'' [CallStartListening, ToggleListening, Elapse 100]
          (mount False initial_state))"
proof -
  have h: "Remount True \<notin> set [CallStartListening, ToggleListening, Elapse 100]"
    by simp
  from unsupported_capability [of "[CallStartListening, ToggleListening, Elapse 100]" "''guide''"] h
  show ?thesis by blast
qed

subsection \<open>The connect lock\<close>

lemma connect_blocked:
  "\<not> passes_lock_check s \<Longrightarrow>
   trace (connect s) = trace s \<and> \<not> passes_lock_check (connect s)"
  by (auto simp: passes_lock_check_def connect_def emit_def)

lemma connect_passed:
  "passes_lock_check s \<Longrightarrow>
   trace (connect s) = trace s @ [TokenRequested] \<and> isConnectingRef (connect s)
   \<and> \<not> passes_lock_check (connect s)"
  by (auto simp: passes_lock_check_def connect_def emit_def)

lemma connect_repeat_blocked:
  "\<not> passes_lock_check s \<Longrightarrow> trace ((connect ^^ n) s) = trace s"
proof (induction n arbitrary: s)
  case 0
  show ?case by simp
next
  case (Suc n)
  from connect_blocked [OF Suc.prems] Suc.IH [of "connect s"]
  show ?case by (simp add: funpow_swap1)
qed

lemma connect_repeat:
  "count_list (trace ((connect ^^ n) s)) TokenRequested
     \<le> Suc (count_list (trace s) TokenRequested)"
proof (cases n)
  case 0
  then show ?thesis by simp
next
  case (Suc m)
  have nb: "\<not> passes_lock_check (connect s)"
    using connect_blocked connect_passed by blast
  have "trace ((connect ^^ n) s) = trace (connect s)"
    using connect_repeat_blocked [OF nb, of m] Suc by (simp add: funpow_swap1)
  moreover have "count_list (trace (connect s)) TokenRequested
      \<le> Suc (count_list (trace s) TokenRequested)"
    using connect_blocked [of s] connect_passed [of s]
    by (cases "passes_lock_check s") auto
  ultimately show ?thesis by simp
qed

lemma cycle_inv_step: "cycle_inv e0 s \<Longrightarrow> cycle_inv e0 (link_step ev s)"
  by (cases ev)
     (auto simp: cycle_inv_def establish_count_def connect_def connect_catch_def
        connect_after_fetch_def connect_after_establish_def emit_def Let_def
        split: fetch_outcome.splits establish_outcome.splits option.splits if_splits)

lemma cycle_inv_run: "cycle_inv e0 s \<Longrightarrow> cycle_inv e0 (fold link_step evs s)"
  by (induction evs arbitrary: s) (simp_all add: cycle_inv_step)

lemma cycle_bound:
  assumes "awaitingToken s = 0" and "establishing s = []"
  shows "establish_count (fold link_step evs s) \<le> Suc (establish_count s)"
proof -
  from assms have "cycle_inv (establish_count s) s" by (simp add: cycle_inv_def)
  then have "cycle_inv (establish_count s) (fold link_step evs s)" by (rule cycle_inv_run)
  then show ?thesis by (simp add: cycle_inv_def)
qed

text \<open>
  Of any number \<open>n\<close> of \<open>connect()\<close> calls made one after the other in the same
  synchronous turn, from any state, at most one gets past the lock check and requests a
  token; a call that gets past the check has set the lock when it suspends. In any
  sequence of calls of \<open>connect\<close> and resumptions of suspended calls that starts with no
  call suspended, the session establishment is invoked at most once.
\<close>

theorem connect_lock_admits_one:
  "count_list (trace ((connect ^^ n) s)) TokenRequested
     \<le> Suc (count_list (trace s) TokenRequested)
   \<and> (passes_lock_check s \<longrightarrow> isConnectingRef (connect s))
   \<and> (awaitingToken s = 0 \<and> establishing s = [] \<longrightarrow>
        establish_count (fold link_step evs s) \<le> Suc (establish_count s))"
  using connect_repeat [of n s] connect_passed [of s] cycle_bound [of s evs] by blast

theorem connect_lock_admits_one_witness:
  "passes_lock_check (mount True initial_state)
   \<and> isConnectingRef (connect (mount True initial_state))
   \<and> awaitingToken (mount True initial_state) = 0
   \<and> establishing (mount True initial_state) = []
   \<and> count_list (trace ((connect ^^ 3) (mount True initial_state))) TokenRequested
       \<le> Suc (count_list (trace (mount True initial_state)) TokenRequested)
   \<and> establish_count
        (fold link_step
           [Connect, Connect, FetchResumes (TokenBody ''ek_1''), Connect,
            EstablishResumes 0 Established, Connect]
           (mount True initial_state))
       \<le> Suc (establish_count (mount True initial_state))"
proof -
  have h: "passes_lock_check (mount True initial_state)"
    "awaitingToken (mount True initial_state) = 0"
    "establishing (mount True initial_state) = []"
    by (simp_all add: passes_lock_check_def mount_def mount_wake_def mount_agent_def
          initial_state_def)
  from connect_lock_admits_one [of 3 "mount True initial_state"
      "[Connect, Connect, FetchResumes (TokenBody ''ek_1''), Connect,
        EstablishResumes 0 Established, Connect]"] h
  show ?thesis by blast
qed

text \<open>
  C2 says that, the lock being set before the first suspension, the session
  establishment is invoked at most once per conversation cycle. The code does not
  ensure it. \<open>disconnect\<close> clears the lock while a call is suspended at the token
  fetch, and nothing cancels that call. In the run \<open>slow_token_fetch\<close> the first
  conversation times out with its fetch pending; in the second conversation
  \<open>connect()\<close> finds the lock clear and no session, and requests a second token. When
  the two fetches return, each call creates a session and invokes its establishment:
  two establishments in one cycle, with no disconnect between them, and the second
  session replaces the first in \<open>sessionRef\<close>, so that the first can no longer be
  closed.
\<close>

theorem slow_fetch_establishes_twice:
  "trace slow_token_fetch =
     [RecognitionStart, RecognitionStop, WakeTone, CountdownStarted 10000, WakeCallback,
      TokenRequested, TimeoutCallback, RecognitionStop, RecognitionStart,
      RecognitionStop, WakeTone, CountdownStarted 10000, WakeCallback, TokenRequested,
      SessionCreated 0, EstablishInvoked 0, SessionCreated 1, EstablishInvoked 1]
   \<and> establish_count slow_token_fetch = 2
   \<and> establishing slow_token_fetch = [0, 1]
   \<and> sessionRef slow_token_fetch = Some 1"
  by (simp add: slow_token_fetch_def listening_page_def run_def hook_defs string_defs
        initial_state_def first_render_def establish_count_def Let_def)

subsection \<open>A failed connect attempt\<close>

text \<open>
  When the token fetch of a call that got past the lock check fails (the fetch is
  rejected, the response is not ok, or its body cannot be read), the lock is cleared,
  the error is set, no session object exists, the status is as before, and the next
  \<open>connect()\<close> gets past the lock check again.
\<close>

theorem fetch_failure_resets:
  assumes "passes_lock_check s" and "\<And>tok. out \<noteq> TokenBody tok"
  shows "isConnectingRef (connect_after_fetch out (connect s)) = False
         \<and> agentError (connect_after_fetch out (connect s)) \<noteq> None
         \<and> sessionRef (connect_after_fetch out (connect s)) = None
         \<and> isConnected (connect_after_fetch out (connect s)) = isConnected s
         \<and> passes_lock_check (connect_after_fetch out (connect s))"
  using assms
  by (cases out)
     (auto simp: passes_lock_check_def connect_def connect_after_fetch_def
        connect_catch_def emit_def Let_def)

theorem fetch_failure_resets_witness:
  "passes_lock_check (mount True initial_state)
   \<and> isConnectingRef (connect_after_fetch ResponseNotOk (connect (mount True initial_state)))
       = False
   \<and> agentError (connect_after_fetch ResponseNotOk (connect (mount True initial_state)))
       \<noteq> None
   \<and> passes_lock_check
       (connect_after_fetch ResponseNotOk (connect (mount True initial_state)))"
proof -
  have h: "passes_lock_check (mount True initial_state)"
    by (simp add: passes_lock_check_def mount_def mount_wake_def mount_agent_def
          initial_state_def)
  have n: "\<And>tok. ResponseNotOk \<noteq> TokenBody tok" by simp
  from fetch_failure_resets [OF h n] h show ?thesis by blast
qed

text \<open>
  C3 says that a failed \<open>connect()\<close> clears the lock, sets the error and keeps no
  partial connection object, so that a later \<open>connect()\<close> can succeed. At session
  establishment the code does not: the agent exists, no session, the lock is clear;
  \<open>connect()\<close> is called, the token fetch succeeds and the session's \<open>connect\<close> is
  rejected. The \<open>catch\<close> block clears the lock and sets the error, but the session
  object created before the rejection stays in \<open>sessionRef\<close>, and the next
  \<open>connect()\<close> returns at the duplicate check without requesting a token. Only a
  \<open>disconnect()\<close> lets a later call through.
\<close>

theorem establish_failure_keeps_session:
  "isConnectingRef failed_establishment = False
   \<and> agentError failed_establishment = Some ''connection failed''
   \<and> isConnected failed_establishment = False
   \<and> sessionRef failed_establishment = Some 0
   \<and> connect failed_establishment = failed_establishment
   \<and> passes_lock_check (disconnect failed_establishment)"
  by (simp add: failed_establishment_def passes_lock_check_def hook_defs initial_state_def
        Let_def)

subsection \<open>Waking and timing out\<close>

lemma wake_step:
  assumes "recognitionRef s" and "\<not> conversationActive_r r" and "\<not> wakeWordDetected_r r"
    and "includes_str (transcript_of ev) (toLowerCase w)"
  shows "trace (handleSpeechResult (page_wake_options w) r ev s)
           = trace s @ [RecognitionStop, WakeTone, CountdownStarted 10000, WakeCallback]"
    and "\<not> recActive (handleSpeechResult (page_wake_options w) r ev s)"
    and "pendingCountdown (handleSpeechResult (page_wake_options w) r ev s) = Some 10000"
    and "wakeWordDetected (handleSpeechResult (page_wake_options w) r ev s)"
    and "conversationActive (handleSpeechResult (page_wake_options w) r ev s)"
    and "timers (handleSpeechResult (page_wake_options w) r ev s) (Suc (nextHandle s))
           = Some (800, DelayedConnect)"
    and "isConnected (handleSpeechResult (page_wake_options w) r ev s) = isConnected s"
    and "awaitingToken (handleSpeechResult (page_wake_options w) r ev s) = awaitingToken s"
  using assms
  by (simp_all add: handleSpeechResult_def page_wake_options_def recognition_stop_def
        playWakeWordSound_def resetSilenceTimer_def setTimeout_def clearTimeout_def emit_def
        silence_ms_def pendingCountdown_def Let_def split: option.splits)

lemma timeout_step:
  "trace (silenceTimeout (page_wake_options w) l s)
     = trace s @ (if recognitionRef s \<and> l \<and> \<not> recActive s then [RecognitionStart] else [])
         @ [TimeoutCallback]
         @ (case sessionRef s of None \<Rightarrow> [] | Some k \<Rightarrow> [SessionClosed k])"
  "\<not> isConnected (silenceTimeout (page_wake_options w) l s)"
  "sessionRef (silenceTimeout (page_wake_options w) l s) = None"
  "\<not> isConnectingRef (silenceTimeout (page_wake_options w) l s)"
  by (auto simp: silenceTimeout_def silenceTimeout_body_def page_wake_options_def
        recognition_start_def disconnect_def emit_def Let_def split: option.splits)

lemma stopped_during_settle_delay_facts:
  "isConnected stopped_during_settle_delay"
  "recActive stopped_during_settle_delay"
  "isListening stopped_during_settle_delay"
  "sessionRef stopped_during_settle_delay = Some 0"
  "pendingCountdown stopped_during_settle_delay = None"
  "trace stopped_during_settle_delay =
     [RecognitionStart, RecognitionStop, WakeTone, CountdownStarted 10000, WakeCallback,
      RecognitionStop, TokenRequested, SessionCreated 0, EstablishInvoked 0,
      ListenersRegistered 0, RecognitionStart]"
  by (simp_all add: stopped_during_settle_delay_def listening_page_def run_def hook_defs
        string_defs initial_state_def first_render_def pendingCountdown_def Let_def)

text \<open>
  C1 says that the listening device is never active while the status is Connected. The
  page breaks this when the button is pressed during the settle delay. The wake
  handler has stopped the recognition and scheduled \<open>connect()\<close>; the button stops
  listening and disconnects, which cancels the countdown but not the scheduled call,
  whose timer handle the page does not keep; the call runs and the session is
  established; the button then starts the recognition. The listening device is active
  and reported active while the status is Connected, and no countdown is pending that
  would end the connection.
\<close>

theorem handoff_violated:
  "isConnected stopped_during_settle_delay
   \<and> recActive stopped_during_settle_delay
   \<and> isListening stopped_during_settle_delay
   \<and> pendingCountdown stopped_during_settle_delay = None
   \<and> trace stopped_during_settle_delay =
       [RecognitionStart, RecognitionStop, WakeTone, CountdownStarted 10000, WakeCallback,
        RecognitionStop, TokenRequested, SessionCreated 0, EstablishInvoked 0,
        ListenersRegistered 0, RecognitionStart]"
  by (simp add: stopped_during_settle_delay_facts)

text \<open>
  The order of the two hand-overs. On every wake transition (a recognition object
  exists, both flags are clear in the handler's render, the transcript contains the
  wake word) the listening
  device is stopped first, then the tone is played, the countdown started and the wake
  callback called; the callback does not call \<open>connect()\<close> but schedules it 800 ms
  later, so the connection state is untouched and the device is inactive when the
  handler returns. On every timeout transition of the page the timeout callback
  disconnects before it returns: the status is then not Connected, no session is held
  and the lock is clear. The recognition is restarted by the timeout only when the
  closure that started the countdown saw \<open>isListening\<close> set (\<open>l\<close>) and the device is
  not already started, and then before the disconnect.
\<close>

theorem handoff_order:
  "(recognitionRef s \<and> \<not> conversationActive_r r \<and> \<not> wakeWordDetected_r r
      \<and> includes_str (transcript_of ev) (toLowerCase w) \<longrightarrow>
      trace (handleSpeechResult (page_wake_options w) r ev s)
        = trace s @ [RecognitionStop, WakeTone, CountdownStarted 10000, WakeCallback]
      \<and> \<not> recActive (handleSpeechResult (page_wake_options w) r ev s)
      \<and> timers (handleSpeechResult (page_wake_options w) r ev s) (Suc (nextHandle s))
          = Some (800, DelayedConnect)
      \<and> isConnected (handleSpeechResult (page_wake_options w) r ev s) = isConnected s
      \<and> awaitingToken (handleSpeechResult (page_wake_options w) r ev s) = awaitingToken s)
   \<and> trace (silenceTimeout (page_wake_options w) l s)
       = trace s @ (if recognitionRef s \<and> l \<and> \<not> recActive s then [RecognitionStart] else [])
           @ [TimeoutCallback]
           @ (case sessionRef s of None \<Rightarrow> [] | Some k \<Rightarrow> [SessionClosed k])
   \<and> \<not> isConnected (silenceTimeout (page_wake_options w) l s)
   \<and> sessionRef (silenceTimeout (page_wake_options w) l s) = None
   \<and> \<not> isConnectingRef (silenceTimeout (page_wake_options w) l s)"
  using wake_step [of s r ev w] timeout_step [of w l s] by blast

theorem handoff_order_witness:
  "recognitionRef listening_page
   \<and> \<not> conversationActive_r first_render
   \<and> \<not> wakeWordDetected_r first_render
   \<and> includes_str (transcript_of [(''Hey Guide'', [])]) (toLowerCase ''guide'')
   \<and> trace (handleSpeechResult (page_wake_options ''guide'') first_render
              [(''Hey Guide'', [])] listening_page)
       = trace listening_page @ [RecognitionStop, WakeTone, CountdownStarted 10000, WakeCallback]
   \<and> \<not> recActive (handleSpeechResult (page_wake_options ''guide'') first_render
              [(''Hey Guide'', [])] listening_page)"
proof -
  have h: "recognitionRef listening_page"
    "\<not> conversationActive_r first_render"
    "\<not> wakeWordDetected_r first_render"
    "includes_str (transcript_of [(''Hey Guide'', [])]) (toLowerCase ''guide'')"
    by (simp_all add: listening_page_facts first_render_def string_defs)
  from handoff_order [of listening_page first_render
      "[(''Hey Guide'', [])]" "''guide''" False] h
  show ?thesis by blast
qed

lemma step_registered:
  "\<not> is_remount ev \<Longrightarrow>
   registeredRender (step w ev s) = registeredRender s
   \<and> recognitionRef (step w ev s) = recognitionRef s"
  by (cases ev)
     (auto simp: hook_defs Let_def
           split: option.splits sum.splits timer_callback.splits fetch_outcome.splits
                  establish_outcome.splits prod.splits if_splits)

lemma run_registered:
  "list_all (\<lambda>ev. \<not> is_remount ev) evs \<Longrightarrow>
   registeredRender (run w evs s) = registeredRender s
   \<and> recognitionRef (run w evs s) = recognitionRef s"
  unfolding run_def by (induction evs arbitrary: s) (simp_all add: step_registered)

lemma mounted_once:
  assumes "list_all (\<lambda>ev. \<not> is_remount ev) evs"
  shows "registeredRender (run w evs (mount True initial_state)) = first_render"
    and "recognitionRef (run w evs (mount True initial_state))"
  using run_registered [OF assms, of w "mount True initial_state"]
  by (simp_all add: mount_def mount_wake_def mount_agent_def initial_state_def
        render_of_def first_render_def)

text \<open>
  C7, as the claim states it, fails for a wake word with white space at an end. The
  wake word " guide" is a substring of the lower-cased transcript " guide", the page is
  listening and no conversation is active; but the handler trims the transcript before
  the test, finds no match, and nothing happens.
\<close>

theorem wake_word_lost_by_trim:
  "includes_str (toLowerCase (concat (map fst [('' guide'', [])]))) (toLowerCase '' guide'')
   \<and> recognitionRef listening_page
   \<and> \<not> conversationActive listening_page
   \<and> \<not> wakeWordDetected listening_page
   \<and> step '' guide'' (SpeechResult [('' guide'', [])]) listening_page = listening_page"
  by (simp add: listening_page_facts handleSpeechResult_def page_wake_options_def
        first_render_def string_defs)

text \<open>
  C7, amended: on the page mounted once in a browser with speech recognition, in any
  state it reaches, when the lower-cased wake word is a substring of the lower-cased and
  trimmed transcript and no conversation is active, the transcript event makes exactly
  one wake transition: the recognition is stopped, the tone is played, a countdown of
  the full 10000 ms is started and is pending, and the wake callback is called once;
  these four are the only effects. Both flags are set and the listening device is not
  active afterwards.
\<close>

theorem wake_transition:
  assumes "list_all (\<lambda>ev. \<not> is_remount ev) evs"
    and "s = run w evs (mount True initial_state)"
    and "\<not> conversationActive s"
    and "includes_str (transcript_of ev) (toLowerCase w)"
  shows "trace (step w (SpeechResult ev) s)
           = trace s @ [RecognitionStop, WakeTone, CountdownStarted 10000, WakeCallback]
         \<and> count_list (trace (step w (SpeechResult ev) s)) WakeCallback
             = Suc (count_list (trace s) WakeCallback)
         \<and> \<not> recActive (step w (SpeechResult ev) s)
         \<and> pendingCountdown (step w (SpeechResult ev) s) = Some 10000
         \<and> wakeWordDetected (step w (SpeechResult ev) s)
         \<and> conversationActive (step w (SpeechResult ev) s)"
proof -
  have reg: "registeredRender s = first_render" and rec: "recognitionRef s"
    unfolding assms(2) using mounted_once [OF assms(1)] by simp_all
  have flags: "\<not> conversationActive_r first_render" "\<not> wakeWordDetected_r first_render"
    by (simp_all add: first_render_def)
  have "step w (SpeechResult ev) s = handleSpeechResult (page_wake_options w) first_render ev s"
    using reg rec by simp
  then show ?thesis
    using wake_step [OF rec flags assms(4)] by simp
qed

theorem wake_transition_witness:
  "list_all (\<lambda>ev. \<not> is_remount ev) [ToggleListening]
   \<and> \<not> conversationActive (run ''guy'' [ToggleListening] (mount True initial_state))
   \<and> includes_str (transcript_of [(''hey guy'', [])]) (toLowerCase ''guy'')
   \<and> trace (step ''guy'' (SpeechResult [(''hey guy'', [])])
              (run ''guy'' [ToggleListening] (mount True initial_state)))
       = trace (run ''guy'' [ToggleListening] (mount True initial_state))
           @ [RecognitionStop, WakeTone, CountdownStarted 10000, WakeCallback]
   \<and> pendingCountdown (step ''guy'' (SpeechResult [(''hey guy'', [])])
              (run ''guy'' [ToggleListening] (mount True initial_state))) = Some 10000"
proof -
  have h: "list_all (\<lambda>ev. \<not> is_remount ev) [ToggleListening]"
    "\<not> conversationActive (run ''guy'' [ToggleListening] (mount True initial_state))"
    "includes_str (transcript_of [(''hey guy'', [])]) (toLowerCase ''guy'')"
    by (simp_all add: run_def hook_defs string_defs initial_state_def)
  from wake_transition [OF h(1) refl h(2) h(3)] h show ?thesis by blast
qed

end
